theory Spec2Isabelle
  imports Main
begin

section \<open>The recipe example \<open>container_build_context.py\<close>\<close>

text \<open>
  The file under \<open>infra/recipe_modules/crosvm/examples\<close> holds two functions:
  \<^verbatim>\<open>
  def RunSteps(api):
      with api.crosvm.container_build_context():
          api.crosvm.step_in_container("Build", ["cargo", "build"])

  def GenTests(api):
      yield api.test("basic")
  \<close>
  \<open>RunSteps\<close> is a \<open>with\<close> statement around one expression statement. Everything it
  does is done by three operations of the \<open>api.crosvm\<close> object, which are parameters of
  the model: entering the context manager, leaving it, and the step. Each of them may
  change the outside world (containers, processes, reported steps), so each takes a world
  of an arbitrary type \<open>'w\<close> and returns the new one; each may raise, so each returns a sum
  with the exception on the left.
\<close>

subsection \<open>Exceptions and values\<close>

text \<open>
  The exceptions a collaborator may raise. The source names none; the first three are the
  names the specification gives them, and \<open>OtherError\<close> stands for any other exception.
\<close>

datatype error =
  ContextAcquisitionError
| StepExecutionError
| ContextError
| OtherError string

text \<open>What \<open>step_in_container\<close> returns: the finished process.\<close>

record ExecutionResult =
  exit_code :: int
  stdout :: string
  stderr :: string

subsection \<open>The collaborator \<open>api.crosvm\<close>\<close>

text \<open>
  \<open>container_build_context_enter\<close> is the call \<open>api.crosvm.container_build_context()\<close>
  together with the \<open>__enter__\<close> of the manager it returns (the statement has no
  \<open>as\<close> clause, so what \<open>__enter__\<close> returns is dropped).
  \<open>container_build_context_exit\<close> is the manager's \<open>__exit__\<close>: it receives the exception
  in flight, if any, and returns whether to suppress it, or raises itself.
\<close>

record 'w crosvm_api =
  container_build_context_enter :: "'w \<Rightarrow> (error + unit) \<times> 'w"
  container_build_context_exit :: "error option \<Rightarrow> 'w \<Rightarrow> (error + bool) \<times> 'w"
  step_in_container :: "string \<Rightarrow> string list \<Rightarrow> 'w \<Rightarrow> (error + ExecutionResult) \<times> 'w"

subsection \<open>The log of collaborator calls\<close>

text \<open>
  The runner's state is the world and a log: every collaborator call appends the call and
  the response it got. The log is an observer's record; no operation reads it.
\<close>

datatype call =
  Acquire
| Execute string "string list"
| Release "error option"

datatype response =
  Entered
| Returned ExecutionResult
| Exited bool
| Raised error

type_synonym event = "call \<times> response"

record 'w run_state =
  world :: 'w
  events :: "event list"

definition acquire :: "'w crosvm_api \<Rightarrow> 'w run_state \<Rightarrow> (error + unit) \<times> 'w run_state" where
  "acquire api s =
     (case container_build_context_enter api (world s) of
        (Inl e, w) \<Rightarrow> (Inl e, \<lparr>world = w, events = events s @ [(Acquire, Raised e)]\<rparr>)
      | (Inr u, w) \<Rightarrow> (Inr u, \<lparr>world = w, events = events s @ [(Acquire, Entered)]\<rparr>))"

definition execute ::
  "'w crosvm_api \<Rightarrow> string \<Rightarrow> string list \<Rightarrow> 'w run_state \<Rightarrow> (error + ExecutionResult) \<times> 'w run_state" where
  "execute api label command s =
     (case step_in_container api label command (world s) of
        (Inl e, w) \<Rightarrow> (Inl e, \<lparr>world = w, events = events s @ [(Execute label command, Raised e)]\<rparr>)
      | (Inr r, w) \<Rightarrow> (Inr r, \<lparr>world = w, events = events s @ [(Execute label command, Returned r)]\<rparr>))"

definition release :: "'w crosvm_api \<Rightarrow> error option \<Rightarrow> 'w run_state \<Rightarrow> (error + bool) \<times> 'w run_state" where
  "release api exc s =
     (case container_build_context_exit api exc (world s) of
        (Inl e, w) \<Rightarrow> (Inl e, \<lparr>world = w, events = events s @ [(Release exc, Raised e)]\<rparr>)
      | (Inr b, w) \<Rightarrow> (Inr b, \<lparr>world = w, events = events s @ [(Release exc, Exited b)]\<rparr>))"

subsection \<open>The \<open>with\<close> statement\<close>

text \<open>
  Python's \<open>with\<close> statement over the context manager of \<open>api\<close>, around a body:
  \<^item> if entering raises, the body is not run and \<open>__exit__\<close> is not called;
  \<^item> if the body raises \<open>e\<close>, \<open>__exit__\<close> is called with \<open>e\<close>; an exception of
    \<open>__exit__\<close> replaces \<open>e\<close>, a true return value suppresses \<open>e\<close>, and otherwise \<open>e\<close>
    is raised again;
  \<^item> if the body returns, \<open>__exit__\<close> is called with no exception and what it returns
    is ignored.
\<close>

definition with_container_build_context ::
  "'w crosvm_api \<Rightarrow> ('w run_state \<Rightarrow> (error + 'a) \<times> 'w run_state) \<Rightarrow> 'w run_state
     \<Rightarrow> (error + unit) \<times> 'w run_state" where
  "with_container_build_context api body s =
     (case acquire api s of
        (Inl e, s1) \<Rightarrow> (Inl e, s1)
      | (Inr _, s1) \<Rightarrow>
          (case body s1 of
             (Inl e, s2) \<Rightarrow>
               (case release api (Some e) s2 of
                  (Inl e', s3) \<Rightarrow> (Inl e', s3)
                | (Inr suppress, s3) \<Rightarrow> (if suppress then Inr () else Inl e, s3))
           | (Inr _, s2) \<Rightarrow>
               (case release api None s2 of
                  (Inl e', s3) \<Rightarrow> (Inl e', s3)
                | (Inr _, s3) \<Rightarrow> (Inr (), s3))))"

subsection \<open>\<open>RunSteps\<close>\<close>

text \<open>
  The body is an expression statement: the value of the call is dropped, and the function
  returns \<open>None\<close>.
\<close>

definition RunSteps :: "'w crosvm_api \<Rightarrow> 'w run_state \<Rightarrow> (error + unit) \<times> 'w run_state" where
  "RunSteps api s =
     with_container_build_context api (execute api ''Build'' [''cargo'', ''build'']) s"

text \<open>One invocation by the harness: the runner starts in a world, with an empty log.\<close>

definition invoke :: "'w crosvm_api \<Rightarrow> 'w \<Rightarrow> (error + unit) \<times> 'w run_state" where
  "invoke api w = RunSteps api \<lparr>world = w, events = []\<rparr>"

definition outcome :: "'w crosvm_api \<Rightarrow> 'w \<Rightarrow> error + unit" where
  "outcome api w = fst (invoke api w)"

definition final_world :: "'w crosvm_api \<Rightarrow> 'w \<Rightarrow> 'w" where
  "final_world api w = world (snd (invoke api w))"

definition event_log :: "'w crosvm_api \<Rightarrow> 'w \<Rightarrow> event list" where
  "event_log api w = events (snd (invoke api w))"

definition calls :: "'w crosvm_api \<Rightarrow> 'w \<Rightarrow> call list" where
  "calls api w = map fst (event_log api w)"

definition responses :: "'w crosvm_api \<Rightarrow> 'w \<Rightarrow> response list" where
  "responses api w = map snd (event_log api w)"

fun is_Execute :: "call \<Rightarrow> bool" where
  "is_Execute (Execute _ _) = True"
| "is_Execute _ = False"

fun is_Release :: "call \<Rightarrow> bool" where
  "is_Release (Release _) = True"
| "is_Release _ = False"

text \<open>The exception a result carries, as \<open>__exit__\<close> receives it.\<close>

fun raised_by :: "error + 'a \<Rightarrow> error option" where
  "raised_by (Inl e) = Some e"
| "raised_by (Inr _) = None"

subsection \<open>\<open>GenTests\<close>\<close>

text \<open>
  The harness's test data: \<open>api.test(name)\<close> makes a test case, and a recipe adds inputs
  to one with \<open>+\<close> (properties, step data, expectations). The harness is outside this
  file, so a test case is the term the recipe builds, with the inputs of an arbitrary
  type \<open>'i\<close>.
\<close>

datatype 'i test_data =
  Test string
| Plus "'i test_data" 'i

fun test_name :: "'i test_data \<Rightarrow> string" where
  "test_name (Test n) = n"
| "test_name (Plus t _) = test_name t"

fun test_inputs :: "'i test_data \<Rightarrow> 'i list" where
  "test_inputs (Test _) = []"
| "test_inputs (Plus t i) = test_inputs t @ [i]"

text \<open>The generator, as the list of what it yields.\<close>

definition GenTests :: "'i test_data list" where
  "GenTests = [Test ''basic'']"

subsection \<open>Terminal states\<close>

datatype terminal = Completed | Failed

fun terminal_state :: "error + unit \<Rightarrow> terminal" where
  "terminal_state (Inr _) = Completed"
| "terminal_state (Inl _) = Failed"

fun is_Raised :: "response \<Rightarrow> bool" where
  "is_Raised (Raised _) = True"
| "is_Raised _ = False"

text \<open>What the log holds after the first response that is an exception.\<close>

fun after_first_failure :: "event list \<Rightarrow> event list" where
  "after_first_failure [] = []"
| "after_first_failure ((c, r) # es) = (if is_Raised r then es else after_first_failure es)"

text \<open>
  The same collaborator, with \<open>f\<close> applied to every result that \<open>step_in_container\<close>
  returns; what it raises and what it does to the world are unchanged.
\<close>

definition with_result :: "(ExecutionResult \<Rightarrow> ExecutionResult) \<Rightarrow> 'w crosvm_api \<Rightarrow> 'w crosvm_api" where
  "with_result f api =
     api\<lparr>step_in_container := \<lambda>label command w.
       (case step_in_container api label command w of
          (Inl e, w') \<Rightarrow> (Inl e, w')
        | (Inr r, w') \<Rightarrow> (Inr (f r), w'))\<rparr>"

subsection \<open>Example collaborators\<close>

text \<open>
  Three collaborators over a world that counts the live containers: one that cannot
  provide a container, one whose build fails, one whose build passes.
\<close>

definition no_container_api :: "nat crosvm_api" where
  "no_container_api =
     \<lparr>container_build_context_enter = \<lambda>w. (Inl ContextAcquisitionError, w),
      container_build_context_exit = \<lambda>exc w. (Inr False, w - 1),
      step_in_container = \<lambda>label command w.
        (Inr \<lparr>exit_code = 0, stdout = [], stderr = []\<rparr>, w)\<rparr>"

definition failing_build_api :: "nat crosvm_api" where
  "failing_build_api =
     \<lparr>container_build_context_enter = \<lambda>w. (Inr (), Suc w),
      container_build_context_exit = \<lambda>exc w. (Inr False, w - 1),
      step_in_container = \<lambda>label command w. (Inl StepExecutionError, w)\<rparr>"

definition passing_build_api :: "nat crosvm_api" where
  "passing_build_api =
     \<lparr>container_build_context_enter = \<lambda>w. (Inr (), Suc w),
      container_build_context_exit = \<lambda>exc w. (Inr False, w - 1),
      step_in_container = \<lambda>label command w.
        (Inr \<lparr>exit_code = 0, stdout = [], stderr = []\<rparr>, w)\<rparr>"

text \<open>
  A collaborator whose build fails and whose context manager suppresses the error of the
  step: its \<open>__exit__\<close> returns true.
\<close>

definition suppressing_release_api :: "nat crosvm_api" where
  "suppressing_release_api =
     \<lparr>container_build_context_enter = \<lambda>w. (Inr (), Suc w),
      container_build_context_exit = \<lambda>exc w. (Inr True, w - 1),
      step_in_container = \<lambda>label command w. (Inl StepExecutionError, w)\<rparr>"

section \<open>What an invocation does\<close>

text \<open>
  The two paths of \<open>RunSteps\<close>, by the outcome of the acquisition. These lemmas compute
  the whole result of an invocation; the properties below are read off them.
\<close>

lemma invoke_enter_raises:
  assumes "container_build_context_enter api w = (Inl e, w1)"
  shows "invoke api w = (Inl e, \<lparr>world = w1, events = [(Acquire, Raised e)]\<rparr>)"
  using assms
  by (simp add: invoke_def RunSteps_def with_container_build_context_def acquire_def)

lemma invoke_enter_returns:
  assumes "container_build_context_enter api w = (Inr u, w1)"
    and "step_in_container api ''Build'' [''cargo'', ''build''] w1 = (r, w2)"
    and "container_build_context_exit api (raised_by r) w2 = (x, w3)"
  shows "invoke api w =
    (case x of
       Inl e' \<Rightarrow> Inl e'
     | Inr suppress \<Rightarrow> (case r of Inl e \<Rightarrow> if suppress then Inr () else Inl e | Inr _ \<Rightarrow> Inr ()),
     \<lparr>world = w3,
      events =
        [(Acquire, Entered),
         (Execute ''Build'' [''cargo'', ''build''], case r of Inl e \<Rightarrow> Raised e | Inr v \<Rightarrow> Returned v),
         (Release (raised_by r), case x of Inl e' \<Rightarrow> Raised e' | Inr b \<Rightarrow> Exited b)]\<rparr>)"
  using assms
  by (cases r; cases x)
    (simp_all add: invoke_def RunSteps_def with_container_build_context_def acquire_def
      execute_def release_def)

lemma event_log_enter_raises:
  assumes "container_build_context_enter api w = (Inl e, w1)"
  shows "event_log api w = [(Acquire, Raised e)]"
  using invoke_enter_raises [OF assms] by (simp add: event_log_def)

lemma event_log_enter_returns:
  assumes "container_build_context_enter api w = (Inr u, w1)"
  shows "\<exists>r2 r3 exc. event_log api w =
    [(Acquire, Entered), (Execute ''Build'' [''cargo'', ''build''], r2), (Release exc, r3)]
    \<and> exc = (case r2 of Raised e \<Rightarrow> Some e | _ \<Rightarrow> None)"
proof -
  obtain r w2 where r: "step_in_container api ''Build'' [''cargo'', ''build''] w1 = (r, w2)"
    by (cases "step_in_container api ''Build'' [''cargo'', ''build''] w1")
  obtain x w3 where x: "container_build_context_exit api (raised_by r) w2 = (x, w3)"
    by (cases "container_build_context_exit api (raised_by r) w2")
  from invoke_enter_returns [OF assms r x] show ?thesis
    by (cases r) (simp_all add: event_log_def)
qed

lemma calls_enter_returns:
  assumes "container_build_context_enter api w = (Inr u, w1)"
    and "step_in_container api ''Build'' [''cargo'', ''build''] w1 = (r, w2)"
  shows "calls api w = [Acquire, Execute ''Build'' [''cargo'', ''build''], Release (raised_by r)]"
proof -
  obtain x w3 where "container_build_context_exit api (raised_by r) w2 = (x, w3)"
    by (cases "container_build_context_exit api (raised_by r) w2")
  from invoke_enter_returns [OF assms this] show ?thesis
    by (simp add: calls_def event_log_def)
qed

text \<open>The example collaborators, run from a world with no container.\<close>

lemma invoke_no_container_api:
  "invoke no_container_api 0 =
     (Inl ContextAcquisitionError, \<lparr>world = 0, events = [(Acquire, Raised ContextAcquisitionError)]\<rparr>)"
  by (simp add: invoke_enter_raises no_container_api_def)

lemma invoke_failing_build_api:
  "invoke failing_build_api w =
     (Inl StepExecutionError,
      \<lparr>world = w,
       events =
         [(Acquire, Entered),
          (Execute ''Build'' [''cargo'', ''build''], Raised StepExecutionError),
          (Release (Some StepExecutionError), Exited False)]\<rparr>)"
  by (simp add: invoke_def RunSteps_def with_container_build_context_def acquire_def
      execute_def release_def failing_build_api_def)

lemma invoke_passing_build_api:
  "invoke passing_build_api w =
     (Inr (),
      \<lparr>world = w,
       events =
         [(Acquire, Entered),
          (Execute ''Build'' [''cargo'', ''build''],
           Returned \<lparr>exit_code = 0, stdout = [], stderr = []\<rparr>),
          (Release None, Exited False)]\<rparr>)"
  by (simp add: invoke_def RunSteps_def with_container_build_context_def acquire_def
      execute_def release_def passing_build_api_def)

lemma invoke_suppressing_release_api:
  "invoke suppressing_release_api w =
     (Inr (),
      \<lparr>world = w,
       events =
         [(Acquire, Entered),
          (Execute ''Build'' [''cargo'', ''build''], Raised StepExecutionError),
          (Release (Some StepExecutionError), Exited True)]\<rparr>)"
  by (simp add: invoke_def RunSteps_def with_container_build_context_def acquire_def
      execute_def release_def suppressing_release_api_def)

lemma distinct_calls: "distinct (calls api w)"
proof -
  obtain a v where a: "container_build_context_enter api w = (a, v)"
    by (cases "container_build_context_enter api w")
  show ?thesis
  proof (cases a)
    case (Inl e)
    with a show ?thesis by (simp add: calls_def event_log_enter_raises)
  next
    case (Inr u)
    with a have "container_build_context_enter api w = (Inr u, v)" by simp
    from event_log_enter_returns [OF this] obtain r2 r3 exc where
      "event_log api w =
         [(Acquire, Entered), (Execute ''Build'' [''cargo'', ''build''], r2), (Release exc, r3)]"
      by auto
    then show ?thesis by (simp add: calls_def)
  qed
qed

lemma no_step_after_first_failure:
  "filter is_Execute (map fst (after_first_failure (event_log api w))) = []"
proof -
  obtain a v where a: "container_build_context_enter api w = (a, v)"
    by (cases "container_build_context_enter api w")
  show ?thesis
  proof (cases a)
    case (Inl e)
    with a show ?thesis by (simp add: event_log_enter_raises)
  next
    case (Inr u)
    with a have "container_build_context_enter api w = (Inr u, v)" by simp
    from event_log_enter_returns [OF this] obtain r2 r3 exc where
      "event_log api w =
         [(Acquire, Entered), (Execute ''Build'' [''cargo'', ''build''], r2), (Release exc, r3)]"
      by auto
    then show ?thesis by simp
  qed
qed

section \<open>Properties of \<open>RunSteps\<close>\<close>

subsection \<open>The sequence of calls\<close>

text \<open>
  C1, as the code has it. In every invocation in which the acquisition of the build
  context succeeds, the collaborator calls are exactly: the acquisition, then
  \<open>step_in_container\<close> with the label \<open>Build\<close> and the command \<open>cargo build\<close>, run in the
  world the acquisition left, then the release, each once and in this order, whatever the
  step returns or raises. The release receives the exception of the step, if there is one.
\<close>

theorem call_sequence_when_acquired:
  assumes "container_build_context_enter api w = (Inr u, w1)"
    and "step_in_container api ''Build'' [''cargo'', ''build''] w1 = (r, w2)"
  shows "calls api w = [Acquire, Execute ''Build'' [''cargo'', ''build''], Release (raised_by r)]
    \<and> length (filter (\<lambda>c. c = Acquire) (calls api w)) = 1
    \<and> length (filter is_Execute (calls api w)) = 1
    \<and> length (filter is_Release (calls api w)) = 1"
  using calls_enter_returns [OF assms] by simp

theorem call_sequence_when_acquired_witness:
  "container_build_context_enter failing_build_api 0 = (Inr (), 1)
   \<and> step_in_container failing_build_api ''Build'' [''cargo'', ''build''] 1 = (Inl StepExecutionError, 1)
   \<and> calls failing_build_api 0 =
       [Acquire, Execute ''Build'' [''cargo'', ''build''], Release (Some StepExecutionError)]
   \<and> length (filter is_Execute (calls failing_build_api 0)) = 1
   \<and> length (filter is_Release (calls failing_build_api 0)) = 1"
proof -
  have h1: "container_build_context_enter failing_build_api 0 = (Inr (), 1)"
    by (simp add: failing_build_api_def)
  have h2: "step_in_container failing_build_api ''Build'' [''cargo'', ''build''] 1
      = (Inl StepExecutionError, 1)"
    by (simp add: failing_build_api_def)
  show ?thesis
    using h1 h2 call_sequence_when_acquired [OF h1 h2] by simp
qed

text \<open>
  The claim as it is written speaks of every invocation. When no container can be
  provided, the only call is the acquisition: the step and the release are not called.
\<close>

theorem call_sequence_counterexample:
  "calls no_container_api 0 = [Acquire]
   \<and> filter is_Execute (calls no_container_api 0) = []
   \<and> filter is_Release (calls no_container_api 0) = []"
  by (simp add: calls_def event_log_def invoke_no_container_api)

subsection \<open>Release on every exit\<close>

text \<open>
  C2. In every invocation in which the acquisition succeeded, the build context is
  released exactly once, as the last call, whether the step returns or raises: the release
  receives the exception of the step (for a failing command, the step's error), and the
  world in which the runner ends, with its result or with the error, is the one the
  release left.
\<close>

theorem release_on_every_exit:
  assumes "container_build_context_enter api w = (Inr u, w1)"
    and "step_in_container api ''Build'' [''cargo'', ''build''] w1 = (r, w2)"
  shows "last (calls api w) = Release (raised_by r)
    \<and> length (filter is_Release (calls api w)) = 1
    \<and> final_world api w = snd (container_build_context_exit api (raised_by r) w2)"
proof -
  obtain x w3 where x: "container_build_context_exit api (raised_by r) w2 = (x, w3)"
    by (cases "container_build_context_exit api (raised_by r) w2")
  from invoke_enter_returns [OF assms x] x show ?thesis
    by (simp add: calls_def event_log_def final_world_def)
qed

theorem release_on_every_exit_witness:
  "container_build_context_enter failing_build_api 0 = (Inr (), 1)
   \<and> step_in_container failing_build_api ''Build'' [''cargo'', ''build''] 1 = (Inl StepExecutionError, 1)
   \<and> outcome failing_build_api 0 = Inl StepExecutionError
   \<and> last (calls failing_build_api 0) = Release (Some StepExecutionError)
   \<and> length (filter is_Release (calls failing_build_api 0)) = 1
   \<and> final_world failing_build_api 0 = 0"
proof -
  have h1: "container_build_context_enter failing_build_api 0 = (Inr (), 1)"
    by (simp add: failing_build_api_def)
  have h2: "step_in_container failing_build_api ''Build'' [''cargo'', ''build''] 1
      = (Inl StepExecutionError, 1)"
    by (simp add: failing_build_api_def)
  have h3: "snd (container_build_context_exit failing_build_api (Some StepExecutionError) 1) = 0"
    by (simp add: failing_build_api_def)
  have h4: "outcome failing_build_api 0 = Inl StepExecutionError"
    by (simp add: outcome_def invoke_failing_build_api)
  show ?thesis
    using h1 h2 h3 h4 release_on_every_exit [OF h1 h2] by simp
qed

subsection \<open>A failed acquisition\<close>

text \<open>
  C3. When acquiring the build context fails, the runner stops there: the exception of
  the acquisition is its outcome, the only collaborator call is the acquisition, and
  \<open>step_in_container\<close> is not called (nor is the release); the world is as the failed
  acquisition left it.
\<close>

theorem acquire_failure_runs_no_step:
  assumes "container_build_context_enter api w = (Inl e, w1)"
  shows "outcome api w = Inl e \<and> calls api w = [Acquire]
    \<and> filter is_Execute (calls api w) = [] \<and> final_world api w = w1"
  using invoke_enter_raises [OF assms]
  by (simp add: outcome_def calls_def event_log_def final_world_def)

theorem acquire_failure_runs_no_step_witness:
  "container_build_context_enter no_container_api 0 = (Inl ContextAcquisitionError, 0)
   \<and> outcome no_container_api 0 = Inl ContextAcquisitionError
   \<and> calls no_container_api 0 = [Acquire]
   \<and> filter is_Execute (calls no_container_api 0) = []
   \<and> final_world no_container_api 0 = 0"
proof -
  have h: "container_build_context_enter no_container_api 0 = (Inl ContextAcquisitionError, 0)"
    by (simp add: no_container_api_def)
  show ?thesis
    using h acquire_failure_runs_no_step [OF h] by simp
qed

subsection \<open>Determinism\<close>

text \<open>
  C4. The runner is deterministic and keeps no state of its own: two invocations, with
  any collaborators and from any worlds, in which the collaborators give the same
  responses make the same sequence of collaborator calls. The calls are a function of the
  responses alone.
\<close>

theorem same_responses_same_calls:
  assumes "responses api1 w1 = responses api2 w2"
  shows "calls api1 w1 = calls api2 w2"
proof -
  obtain a1 v1 where a1: "container_build_context_enter api1 w1 = (a1, v1)"
    by (cases "container_build_context_enter api1 w1")
  obtain a2 v2 where a2: "container_build_context_enter api2 w2 = (a2, v2)"
    by (cases "container_build_context_enter api2 w2")
  show ?thesis
  proof (cases a1)
    case l1: (Inl e1)
    show ?thesis
    proof (cases a2)
      case (Inl e2)
      with l1 a1 a2 show ?thesis
        by (simp add: calls_def event_log_enter_raises)
    next
      case (Inr u2)
      with a2 have "container_build_context_enter api2 w2 = (Inr u2, v2)" by simp
      from event_log_enter_returns [OF this] obtain r2 r3 exc where
        "event_log api2 w2 =
           [(Acquire, Entered), (Execute ''Build'' [''cargo'', ''build''], r2), (Release exc, r3)]"
        by auto
      with l1 a1 assms show ?thesis
        by (simp add: responses_def event_log_enter_raises)
    qed
  next
    case r1: (Inr u1)
    with a1 have "container_build_context_enter api1 w1 = (Inr u1, v1)" by simp
    from event_log_enter_returns [OF this] obtain p2 p3 pexc where
      p: "event_log api1 w1 =
           [(Acquire, Entered), (Execute ''Build'' [''cargo'', ''build''], p2), (Release pexc, p3)]"
        "pexc = (case p2 of Raised e \<Rightarrow> Some e | _ \<Rightarrow> None)"
      by auto
    show ?thesis
    proof (cases a2)
      case (Inl e2)
      with a2 p assms show ?thesis
        by (simp add: responses_def event_log_enter_raises)
    next
      case (Inr u2)
      with a2 have "container_build_context_enter api2 w2 = (Inr u2, v2)" by simp
      from event_log_enter_returns [OF this] obtain q2 q3 qexc where
        q: "event_log api2 w2 =
             [(Acquire, Entered), (Execute ''Build'' [''cargo'', ''build''], q2), (Release qexc, q3)]"
          "qexc = (case q2 of Raised e \<Rightarrow> Some e | _ \<Rightarrow> None)"
        by auto
      with p assms show ?thesis
        by (simp add: responses_def calls_def)
    qed
  qed
qed

text \<open>
  Two invocations of the same collaborator from different worlds (no container, and five
  containers left behind by others).
\<close>

theorem same_responses_same_calls_witness:
  "responses passing_build_api 0 = responses passing_build_api 5
   \<and> calls passing_build_api 0 = calls passing_build_api 5
   \<and> calls passing_build_api 0 = [Acquire, Execute ''Build'' [''cargo'', ''build''], Release None]"
proof -
  have h: "responses passing_build_api 0 = responses passing_build_api 5"
    by (simp add: responses_def event_log_def invoke_passing_build_api)
  have c: "calls passing_build_api 0 = [Acquire, Execute ''Build'' [''cargo'', ''build''], Release None]"
    by (simp add: calls_def event_log_def invoke_passing_build_api)
  show ?thesis
    using h c same_responses_same_calls [OF h] by simp
qed

subsection \<open>Propagation of errors\<close>

text \<open>
  C5, as the code has it. The runner has no handler and no loop, and the \<open>with\<close>
  statement hands an error of the step to the release:
  \<^item> an error raised by the acquisition is the outcome of the runner, unchanged, and
    the acquisition is the only call;
  \<^item> an error raised by the step is passed to the release; it is the outcome of the
    runner, unchanged, when the release returns without suppressing it; when the release
    suppresses it the runner returns normally, and when the release itself raises, that
    error is the outcome;
  \<^item> no collaborator call is made twice: nothing is retried.
\<close>

theorem collaborator_error_propagates:
  "(container_build_context_enter api w = (Inl e, w1) \<longrightarrow>
      outcome api w = Inl e \<and> calls api w = [Acquire])
   \<and> (container_build_context_enter api w = (Inr u, v1)
       \<and> step_in_container api ''Build'' [''cargo'', ''build''] v1 = (Inl e', v2)
       \<and> container_build_context_exit api (Some e') v2 = (x, v3) \<longrightarrow>
      outcome api w =
        (case x of
           Inl e'' \<Rightarrow> Inl e''
         | Inr suppress \<Rightarrow> if suppress then Inr () else Inl e')
      \<and> calls api w = [Acquire, Execute ''Build'' [''cargo'', ''build''], Release (Some e')])
   \<and> distinct (calls api w)"
proof (intro conjI impI)
  assume "container_build_context_enter api w = (Inl e, w1)"
  from invoke_enter_raises [OF this] show "outcome api w = Inl e" "calls api w = [Acquire]"
    by (simp_all add: outcome_def calls_def event_log_def)
next
  assume h: "container_build_context_enter api w = (Inr u, v1)
    \<and> step_in_container api ''Build'' [''cargo'', ''build''] v1 = (Inl e', v2)
    \<and> container_build_context_exit api (Some e') v2 = (x, v3)"
  then have enter: "container_build_context_enter api w = (Inr u, v1)"
    and step: "step_in_container api ''Build'' [''cargo'', ''build''] v1 = (Inl e', v2)"
    and exit: "container_build_context_exit api (raised_by (Inl e' :: error + ExecutionResult)) v2
      = (x, v3)"
    by simp_all
  from invoke_enter_returns [OF enter step exit]
  show "outcome api w =
      (case x of Inl e'' \<Rightarrow> Inl e'' | Inr suppress \<Rightarrow> if suppress then Inr () else Inl e')"
    by (cases x) (simp_all add: outcome_def)
  from calls_enter_returns [OF enter step]
  show "calls api w = [Acquire, Execute ''Build'' [''cargo'', ''build''], Release (Some e')]"
    by simp
next
  show "distinct (calls api w)" by (rule distinct_calls)
qed

text \<open>
  A failed acquisition, and a failed build under a context manager that returns false
  from \<open>__exit__\<close>.
\<close>

theorem collaborator_error_propagates_witness:
  "container_build_context_enter no_container_api 0 = (Inl ContextAcquisitionError, 0)
   \<and> outcome no_container_api 0 = Inl ContextAcquisitionError
   \<and> calls no_container_api 0 = [Acquire]
   \<and> container_build_context_enter failing_build_api 0 = (Inr (), 1)
   \<and> step_in_container failing_build_api ''Build'' [''cargo'', ''build''] 1
       = (Inl StepExecutionError, 1)
   \<and> container_build_context_exit failing_build_api (Some StepExecutionError) 1 = (Inr False, 0)
   \<and> outcome failing_build_api 0 = Inl StepExecutionError
   \<and> calls failing_build_api 0 =
       [Acquire, Execute ''Build'' [''cargo'', ''build''], Release (Some StepExecutionError)]
   \<and> distinct (calls failing_build_api 0)"
proof -
  have a: "container_build_context_enter no_container_api 0 = (Inl ContextAcquisitionError, 0)"
    by (simp add: no_container_api_def)
  have b: "container_build_context_enter failing_build_api 0 = (Inr (), 1)"
    "step_in_container failing_build_api ''Build'' [''cargo'', ''build''] 1
       = (Inl StepExecutionError, 1)"
    "container_build_context_exit failing_build_api (Some StepExecutionError) 1 = (Inr False, 0)"
    by (simp_all add: failing_build_api_def)
  show ?thesis
    using a b
      collaborator_error_propagates
        [of no_container_api 0 ContextAcquisitionError 0 "()" 0 StepExecutionError 0 "Inr False" 0]
      collaborator_error_propagates
        [of failing_build_api 0 ContextAcquisitionError 0 "()" 1 StepExecutionError 1 "Inr False" 0]
    by simp
qed

text \<open>
  The claim as it is written speaks of every error of a collaborator. Under a context
  manager that suppresses, the step raises and the runner returns normally: the error
  does not reach the harness.
\<close>

theorem error_propagation_counterexample:
  "fst (step_in_container suppressing_release_api ''Build'' [''cargo'', ''build''] 1)
     = Inl StepExecutionError
   \<and> (Execute ''Build'' [''cargo'', ''build''], Raised StepExecutionError)
       \<in> set (event_log suppressing_release_api 0)
   \<and> outcome suppressing_release_api 0 = Inr ()
   \<and> outcome suppressing_release_api 0 \<noteq> Inl StepExecutionError"
proof -
  have "fst (step_in_container suppressing_release_api ''Build'' [''cargo'', ''build''] 1)
      = Inl StepExecutionError"
    by (simp add: suppressing_release_api_def)
  moreover have "(Execute ''Build'' [''cargo'', ''build''], Raised StepExecutionError)
      \<in> set (event_log suppressing_release_api 0)"
    by (simp add: event_log_def invoke_suppressing_release_api)
  moreover have "outcome suppressing_release_api 0 = Inr ()"
    by (simp add: outcome_def invoke_suppressing_release_api)
  ultimately show ?thesis by simp
qed

subsection \<open>Terminal states\<close>

text \<open>
  C6, as the code has it. Every invocation ends in one of two states, \<open>Completed\<close> (the
  runner returns) or \<open>Failed\<close> (it raises):
  \<^item> when the acquisition fails the state is \<open>Failed\<close>, and no step is run;
  \<^item> when the acquisition succeeds the step is run once and the release after it, and
    the release decides with the step: the state is \<open>Failed\<close> when the release raises;
    otherwise it is \<open>Completed\<close> when the step succeeded, and when the step failed it is
    \<open>Failed\<close> unless the release suppresses the error, which makes it \<open>Completed\<close>;
  \<^item> in every invocation no step is run after the first call that failed.
\<close>

theorem terminal_states:
  "(container_build_context_enter api w = (Inl e, w1) \<longrightarrow>
      terminal_state (outcome api w) = Failed \<and> filter is_Execute (calls api w) = [])
   \<and> (container_build_context_enter api w = (Inr u, v1)
       \<and> step_in_container api ''Build'' [''cargo'', ''build''] v1 = (r, v2)
       \<and> container_build_context_exit api (raised_by r) v2 = (x, v3) \<longrightarrow>
      terminal_state (outcome api w) =
        (case x of
           Inl _ \<Rightarrow> Failed
         | Inr suppress \<Rightarrow>
             (case r of Inl _ \<Rightarrow> if suppress then Completed else Failed | Inr _ \<Rightarrow> Completed))
      \<and> calls api w = [Acquire, Execute ''Build'' [''cargo'', ''build''], Release (raised_by r)])
   \<and> filter is_Execute (map fst (after_first_failure (event_log api w))) = []"
proof (intro conjI impI)
  assume "container_build_context_enter api w = (Inl e, w1)"
  from invoke_enter_raises [OF this]
  show "terminal_state (outcome api w) = Failed" "filter is_Execute (calls api w) = []"
    by (simp_all add: outcome_def calls_def event_log_def)
next
  assume h: "container_build_context_enter api w = (Inr u, v1)
    \<and> step_in_container api ''Build'' [''cargo'', ''build''] v1 = (r, v2)
    \<and> container_build_context_exit api (raised_by r) v2 = (x, v3)"
  then have enter: "container_build_context_enter api w = (Inr u, v1)"
    and step: "step_in_container api ''Build'' [''cargo'', ''build''] v1 = (r, v2)"
    and exit: "container_build_context_exit api (raised_by r) v2 = (x, v3)"
    by simp_all
  from invoke_enter_returns [OF enter step exit]
  show "terminal_state (outcome api w) =
      (case x of
         Inl _ \<Rightarrow> Failed
       | Inr suppress \<Rightarrow>
           (case r of Inl _ \<Rightarrow> if suppress then Completed else Failed | Inr _ \<Rightarrow> Completed))"
    by (cases x; cases r) (simp_all add: outcome_def)
  from calls_enter_returns [OF enter step]
  show "calls api w = [Acquire, Execute ''Build'' [''cargo'', ''build''], Release (raised_by r)]" .
next
  show "filter is_Execute (map fst (after_first_failure (event_log api w))) = []"
    by (rule no_step_after_first_failure)
qed

text \<open>A failed acquisition, a failed build and a passing build.\<close>

theorem terminal_states_witness:
  "container_build_context_enter no_container_api 0 = (Inl ContextAcquisitionError, 0)
   \<and> terminal_state (outcome no_container_api 0) = Failed
   \<and> filter is_Execute (calls no_container_api 0) = []
   \<and> container_build_context_enter failing_build_api 0 = (Inr (), 1)
   \<and> step_in_container failing_build_api ''Build'' [''cargo'', ''build''] 1
       = (Inl StepExecutionError, 1)
   \<and> container_build_context_exit failing_build_api (Some StepExecutionError) 1 = (Inr False, 0)
   \<and> terminal_state (outcome failing_build_api 0) = Failed
   \<and> container_build_context_enter passing_build_api 0 = (Inr (), 1)
   \<and> step_in_container passing_build_api ''Build'' [''cargo'', ''build''] 1
       = (Inr \<lparr>exit_code = 0, stdout = [], stderr = []\<rparr>, 1)
   \<and> container_build_context_exit passing_build_api None 1 = (Inr False, 0)
   \<and> terminal_state (outcome passing_build_api 0) = Completed
   \<and> calls passing_build_api 0 = [Acquire, Execute ''Build'' [''cargo'', ''build''], Release None]"
proof -
  have a: "container_build_context_enter no_container_api 0 = (Inl ContextAcquisitionError, 0)"
    by (simp add: no_container_api_def)
  have b: "container_build_context_enter failing_build_api 0 = (Inr (), 1)"
    "step_in_container failing_build_api ''Build'' [''cargo'', ''build''] 1
       = (Inl StepExecutionError, 1)"
    "container_build_context_exit failing_build_api (Some StepExecutionError) 1 = (Inr False, 0)"
    by (simp_all add: failing_build_api_def)
  have c: "container_build_context_enter passing_build_api 0 = (Inr (), 1)"
    "step_in_container passing_build_api ''Build'' [''cargo'', ''build''] 1
       = (Inr \<lparr>exit_code = 0, stdout = [], stderr = []\<rparr>, 1)"
    "container_build_context_exit passing_build_api None 1 = (Inr False, 0)"
    by (simp_all add: passing_build_api_def)
  show ?thesis
    using a b c
      terminal_states
        [of no_container_api 0 ContextAcquisitionError 0 "()" 0 "Inl StepExecutionError" 0 "Inr False" 0]
      terminal_states
        [of failing_build_api 0 ContextAcquisitionError 0 "()" 1 "Inl StepExecutionError" 1 "Inr False" 0]
      terminal_states
        [of passing_build_api 0 ContextAcquisitionError 0 "()" 1
          "Inr \<lparr>exit_code = 0, stdout = [], stderr = []\<rparr>" 1 "Inr False" 0]
    by simp
qed

text \<open>
  The claim as it is written ties the terminal state to the acquisition and the step
  alone. Under a context manager that suppresses, the step fails and the run is
  \<open>Completed\<close>.
\<close>

theorem terminal_states_counterexample:
  "fst (step_in_container suppressing_release_api ''Build'' [''cargo'', ''build''] 1)
     = Inl StepExecutionError
   \<and> (Execute ''Build'' [''cargo'', ''build''], Raised StepExecutionError)
       \<in> set (event_log suppressing_release_api 0)
   \<and> terminal_state (outcome suppressing_release_api 0) = Completed
   \<and> terminal_state (outcome suppressing_release_api 0) \<noteq> Failed"
proof -
  have "fst (step_in_container suppressing_release_api ''Build'' [''cargo'', ''build''] 1)
      = Inl StepExecutionError"
    by (simp add: suppressing_release_api_def)
  moreover have "(Execute ''Build'' [''cargo'', ''build''], Raised StepExecutionError)
      \<in> set (event_log suppressing_release_api 0)"
    by (simp add: event_log_def invoke_suppressing_release_api)
  moreover have "terminal_state (outcome suppressing_release_api 0) = Completed"
    by (simp add: outcome_def invoke_suppressing_release_api)
  ultimately show ?thesis by simp
qed

section \<open>Properties of \<open>GenTests\<close>\<close>

text \<open>
  C7. The test generator yields exactly one test case; its name is \<open>basic\<close>, and no input
  or override is added to it.
\<close>

theorem GenTests_one_scenario:
  "length (GenTests :: 'i test_data list) = 1
   \<and> map test_name (GenTests :: 'i test_data list) = [''basic'']
   \<and> map test_inputs (GenTests :: 'i test_data list) = [[]]"
  by (simp add: GenTests_def)

section \<open>What the runner does not do\<close>

text \<open>
  C8. The runner drops what the step returns. Replace every result that
  \<open>step_in_container\<close> returns by any other (another exit code, another output): the
  outcome of the runner, its collaborator calls and the world it leaves are the same.
  Whether the runner fails is decided by whether a collaborator raises.
\<close>

theorem step_result_discarded:
  "outcome (with_result f api) w = outcome api w
   \<and> calls (with_result f api) w = calls api w
   \<and> final_world (with_result f api) w = final_world api w"
proof -
  obtain a w1 where a: "container_build_context_enter api w = (a, w1)"
    by (cases "container_build_context_enter api w")
  then have a': "container_build_context_enter (with_result f api) w = (a, w1)"
    by (simp add: with_result_def)
  show ?thesis
  proof (cases a)
    case (Inl e0)
    with a a' show ?thesis
      by (simp add: invoke_enter_raises outcome_def calls_def event_log_def final_world_def)
  next
    case (Inr u)
    with a a' have enter: "container_build_context_enter api w = (Inr u, w1)"
      and enter': "container_build_context_enter (with_result f api) w = (Inr u, w1)"
      by simp_all
    obtain r w2 where r: "step_in_container api ''Build'' [''cargo'', ''build''] w1 = (r, w2)"
      by (cases "step_in_container api ''Build'' [''cargo'', ''build''] w1")
    obtain x w3 where x: "container_build_context_exit api (raised_by r) w2 = (x, w3)"
      by (cases "container_build_context_exit api (raised_by r) w2")
    note old = invoke_enter_returns [OF enter r x]
    show ?thesis
    proof (cases r)
      case (Inl e)
      with r have r': "step_in_container (with_result f api) ''Build'' [''cargo'', ''build''] w1
          = (Inl e, w2)"
        by (simp add: with_result_def)
      from x Inl have x': "container_build_context_exit (with_result f api)
          (raised_by (Inl e :: error + ExecutionResult)) w2 = (x, w3)"
        by (simp add: with_result_def)
      from old invoke_enter_returns [OF enter' r' x'] Inl show ?thesis
        by (cases x) (simp_all add: outcome_def calls_def event_log_def final_world_def)
    next
      case (Inr v)
      with r have r': "step_in_container (with_result f api) ''Build'' [''cargo'', ''build''] w1
          = (Inr (f v), w2)"
        by (simp add: with_result_def)
      from x Inr have x': "container_build_context_exit (with_result f api)
          (raised_by (Inr (f v) :: error + ExecutionResult)) w2 = (x, w3)"
        by (simp add: with_result_def)
      from old invoke_enter_returns [OF enter' r' x'] Inr show ?thesis
        by (cases x) (simp_all add: outcome_def calls_def event_log_def final_world_def)
    qed
  qed
qed

text \<open>
  C9. The runner makes no collaborator call outside the scope of the build context, and
  one call inside it. The calls of an invocation are the acquisition alone, or the
  acquisition, the step and the release: nothing comes before the acquisition, nothing
  between the step and the release, nothing after the release.
\<close>

theorem calls_inside_scope_only:
  "calls api w = [Acquire]
   \<or> (\<exists>exc. calls api w = [Acquire, Execute ''Build'' [''cargo'', ''build''], Release exc])"
proof -
  obtain a v where a: "container_build_context_enter api w = (a, v)"
    by (cases "container_build_context_enter api w")
  show ?thesis
  proof (cases a)
    case (Inl e)
    with a show ?thesis by (simp add: calls_def event_log_enter_raises)
  next
    case (Inr u)
    with a have "container_build_context_enter api w = (Inr u, v)" by simp
    from event_log_enter_returns [OF this] obtain r2 r3 exc where
      "event_log api w =
         [(Acquire, Entered), (Execute ''Build'' [''cargo'', ''build''], r2), (Release exc, r3)]"
      by auto
    then show ?thesis by (simp add: calls_def)
  qed
qed

end
